theory Spec2Isabelle
  imports Main "HOL-Library.Sublist" "HOL-Library.Word"
begin

section \<open>Python values used by \<^verbatim>\<open>gemini_2_speakers_tts.py\<close>\<close>

text \<open>
  A Python \<^verbatim>\<open>str\<close> is modelled as a \<^typ>\<open>string\<close> whose characters are the code
  points 0 to 255 (Latin-1); \<^verbatim>\<open>bytes\<close> is a list of 8-bit words. Every exception the
  script can raise is a value of \<open>py_error\<close>; a function that may raise returns
  \<open>py_error + 'a\<close>.
\<close>

type_synonym byte = "8 word"

datatype py_error = IndexError | KeyError | AttributeError | StructError | ServiceError

subsection \<open>\<^verbatim>\<open>str.strip\<close>, \<^verbatim>\<open>str.lower\<close>, \<^verbatim>\<open>str.split\<close>, \<^verbatim>\<open>str.splitlines\<close>\<close>

definition is_space :: "char \<Rightarrow> bool" where
  \<comment> \<open>\<^verbatim>\<open>str.isspace\<close> on the code points below 256\<close>
  "is_space c \<longleftrightarrow> c \<in> set [CHR 0x09, CHR 0x0A, CHR 0x0B, CHR 0x0C, CHR 0x0D,
     CHR 0x1C, CHR 0x1D, CHR 0x1E, CHR 0x1F, CHR 0x20, CHR 0x85, CHR 0xA0]"

definition py_strip :: "string \<Rightarrow> string" where
  "py_strip s = rev (dropWhile is_space (rev (dropWhile is_space s)))"

definition lower_char :: "char \<Rightarrow> char" where
  \<comment> \<open>A-Z and the Latin-1 capitals 0xC0-0xDE (without the multiplication sign 0xD7)\<close>
  "lower_char c =
     (let n = (of_char c :: nat)
      in if (65 \<le> n \<and> n \<le> 90) \<or> (192 \<le> n \<and> n \<le> 222 \<and> n \<noteq> 215)
         then char_of (n + 32) else c)"

definition lower :: "string \<Rightarrow> string" where
  "lower s = map lower_char s"

definition startswith :: "string \<Rightarrow> string \<Rightarrow> bool" where
  "startswith s p \<longleftrightarrow> prefix p s"

fun contains :: "string \<Rightarrow> string \<Rightarrow> bool" where
  \<comment> \<open>\<^verbatim>\<open>p in s\<close> for strings: \<open>p\<close> occurs in \<open>s\<close> as a contiguous substring\<close>
  "contains [] p = (p = [])"
| "contains (c # cs) p = (prefix p (c # cs) \<or> contains cs p)"

fun split_on :: "char \<Rightarrow> string \<Rightarrow> string list" where
  \<comment> \<open>\<^verbatim>\<open>s.split(sep)\<close> for a one-character separator: empty pieces are kept\<close>
  "split_on sep [] = [[]]"
| "split_on sep (c # cs) =
     (if c = sep then [] # split_on sep cs
      else (case split_on sep cs of [] \<Rightarrow> [[c]] | piece # pieces \<Rightarrow> (c # piece) # pieces))"

definition before_sep :: "char \<Rightarrow> string \<Rightarrow> string" where
  \<comment> \<open>\<^verbatim>\<open>s.split(sep, 1)[0]\<close>\<close>
  "before_sep sep s = takeWhile (\<lambda>c. c \<noteq> sep) s"

definition after_sep :: "char \<Rightarrow> string \<Rightarrow> string option" where
  \<comment> \<open>\<^verbatim>\<open>s.split(sep, 1)[1]\<close>; \<open>None\<close> is the IndexError when \<open>sep\<close> does not occur\<close>
  "after_sep sep s = (if sep \<in> set s then Some (tl (dropWhile (\<lambda>c. c \<noteq> sep) s)) else None)"

definition is_linebreak :: "char \<Rightarrow> bool" where
  \<comment> \<open>the line boundaries of \<^verbatim>\<open>str.splitlines\<close> below code point 256\<close>
  "is_linebreak c \<longleftrightarrow> c \<in> set [CHR 0x0A, CHR 0x0B, CHR 0x0C, CHR 0x0D,
     CHR 0x1C, CHR 0x1D, CHR 0x1E, CHR 0x85]"

fun lines_from :: "string \<Rightarrow> string \<Rightarrow> string list" where
  \<comment> \<open>first argument: the characters of the line being read, last one first\<close>
  "lines_from cur [] = (if cur = [] then [] else [rev cur])"
| "lines_from cur (c # cs) =
     (if c = CHR 0x0D then
        (case cs of
           [] \<Rightarrow> [rev cur]
         | d # ds \<Rightarrow> if d = CHR 0x0A then rev cur # lines_from [] ds
                    else rev cur # lines_from [] (d # ds))
      else if is_linebreak c then rev cur # lines_from [] cs
      else lines_from (c # cur) cs)"

definition splitlines :: "string \<Rightarrow> string list" where
  "splitlines s = lines_from [] s"

subsection \<open>\<^verbatim>\<open>int(str)\<close>\<close>

definition is_int_space :: "char \<Rightarrow> bool" where
  \<comment> \<open>the white space \<^verbatim>\<open>int\<close> accepts around a literal (0x1C-0x1F are not part of it)\<close>
  "is_int_space c \<longleftrightarrow> c \<in> set [CHR 0x09, CHR 0x0A, CHR 0x0B, CHR 0x0C, CHR 0x0D,
     CHR 0x20, CHR 0x85, CHR 0xA0]"

definition is_digit :: "char \<Rightarrow> bool" where
  "is_digit c \<longleftrightarrow> c \<in> set ''0123456789''"

definition digit_val :: "char \<Rightarrow> nat" where
  "digit_val c = of_char c - 48"

fun scan_digits :: "nat \<Rightarrow> string \<Rightarrow> nat option" where
  \<comment> \<open>after a digit: more digits, each optionally preceded by one underscore\<close>
  "scan_digits acc [] = Some acc"
| "scan_digits acc (c # cs) =
     (if is_digit c then scan_digits (10 * acc + digit_val c) cs
      else if c = CHR ''_'' then
        (case cs of
           [] \<Rightarrow> None
         | d # ds \<Rightarrow> if is_digit d then scan_digits (10 * acc + digit_val d) ds else None)
      else None)"

definition parse_digits :: "string \<Rightarrow> nat option" where
  \<comment> \<open>more than 4300 digits is a ValueError (the interpreter's default limit)\<close>
  "parse_digits s =
     (case s of
        [] \<Rightarrow> None
      | c # cs \<Rightarrow> if is_digit c \<and> length (filter is_digit s) \<le> 4300
                 then scan_digits (digit_val c) cs else None)"

definition py_int :: "string \<Rightarrow> int option" where
  \<comment> \<open>\<open>None\<close> is the ValueError\<close>
  "py_int s =
     (case rev (dropWhile is_int_space (rev (dropWhile is_int_space s))) of
        [] \<Rightarrow> None
      | c # cs \<Rightarrow>
          if c = CHR ''+'' then map_option int (parse_digits cs)
          else if c = CHR ''-'' then map_option (\<lambda>n. - int n) (parse_digits cs)
          else map_option int (parse_digits (c # cs)))"

section \<open>\<^verbatim>\<open>parse_audio_mime_type\<close>\<close>

record audio_params =
  bits_per_sample :: int
  rate :: int

definition parse_param :: "audio_params \<Rightarrow> string \<Rightarrow> audio_params" where
  \<comment> \<open>one pass through the body of the \<^verbatim>\<open>for param in parts\<close> loop\<close>
  "parse_param ps raw =
     (let param = py_strip raw
      in if startswith (lower param) ''rate='' then
           (case after_sep CHR ''='' param of
              None \<Rightarrow> ps
            | Some r \<Rightarrow> (case py_int r of None \<Rightarrow> ps | Some n \<Rightarrow> ps\<lparr>rate := n\<rparr>))
         else if contains param ''audio/L'' then
           (case after_sep CHR ''L'' param of
              None \<Rightarrow> ps
            | Some r \<Rightarrow> (case py_int r of None \<Rightarrow> ps | Some n \<Rightarrow> ps\<lparr>bits_per_sample := n\<rparr>))
         else ps)"

definition parse_audio_mime_type :: "string \<Rightarrow> audio_params" where
  "parse_audio_mime_type mime_type =
     foldl parse_param \<lparr>bits_per_sample = 16, rate = 24000\<rparr> (split_on CHR '';'' mime_type)"

section \<open>\<^verbatim>\<open>convert_to_wav\<close>\<close>

text \<open>
  \<^verbatim>\<open>struct.pack("<4sI4s4sIHHIIHH4sI", ...)\<close>: little-endian, no padding. An \<^verbatim>\<open>I\<close> field
  takes an integer from 0 to \<open>2^32 - 1\<close>, an \<^verbatim>\<open>H\<close> field one from 0 to 65535; any other
  integer raises \<^verbatim>\<open>struct.error\<close>.
\<close>

datatype pack_arg = Bytes4 string | UInt int | UShort int

definition le_bytes :: "nat \<Rightarrow> int \<Rightarrow> byte list" where
  "le_bytes k n = map (\<lambda>i. word_of_int (n div 256 ^ i)) [0..<k]"

definition ascii_bytes :: "string \<Rightarrow> byte list" where
  "ascii_bytes s = map of_char s"

fun pack_one :: "pack_arg \<Rightarrow> py_error + byte list" where
  "pack_one (Bytes4 s) = Inr (take 4 (ascii_bytes s @ replicate 4 0))"
| "pack_one (UInt n) = (if 0 \<le> n \<and> n < 2 ^ 32 then Inr (le_bytes 4 n) else Inl StructError)"
| "pack_one (UShort n) = (if 0 \<le> n \<and> n < 2 ^ 16 then Inr (le_bytes 2 n) else Inl StructError)"

fun struct_pack :: "pack_arg list \<Rightarrow> py_error + byte list" where
  "struct_pack [] = Inr []"
| "struct_pack (a # as) =
     (case pack_one a of
        Inl e \<Rightarrow> Inl e
      | Inr b \<Rightarrow> (case struct_pack as of Inl e \<Rightarrow> Inl e | Inr bs \<Rightarrow> Inr (b @ bs)))"

definition convert_to_wav :: "byte list \<Rightarrow> string \<Rightarrow> py_error + byte list" where
  "convert_to_wav audio_data mime_type =
     (let parameters = parse_audio_mime_type mime_type;
          bits = bits_per_sample parameters;
          sample_rate = rate parameters;
          num_channels = 1;
          data_size = int (length audio_data);
          bytes_per_sample = bits div 8;
          block_align = num_channels * bytes_per_sample;
          byte_rate = sample_rate * block_align;
          chunk_size = 36 + data_size
      in case struct_pack
           [Bytes4 ''RIFF'', UInt chunk_size, Bytes4 ''WAVE'', Bytes4 ''fmt '', UInt 16,
            UShort 1, UShort num_channels, UInt sample_rate, UInt byte_rate,
            UShort block_align, UShort bits, Bytes4 ''data'', UInt data_size] of
           Inl e \<Rightarrow> Inl e
         | Inr header \<Rightarrow> Inr (header @ audio_data))"

section \<open>\<^verbatim>\<open>extract_speakers\<close>\<close>

fun extract_loop :: "string list \<Rightarrow> string list \<Rightarrow> string option \<times> string option" where
  \<comment> \<open>the \<^verbatim>\<open>for line in text.splitlines()\<close> loop, started with the list \<^verbatim>\<open>seen\<close>\<close>
  "extract_loop seen [] = (case seen of [] \<Rightarrow> (None, None) | n # _ \<Rightarrow> (Some n, None))"
| "extract_loop seen (line # rest) =
     (if CHR '':'' \<in> set line then
        (let name = py_strip (before_sep CHR '':'' line);
             seen' = (if name \<noteq> [] \<and> name \<notin> set seen then seen @ [name] else seen)
         in if length seen' = 2 then (Some (seen' ! 0), Some (seen' ! 1))
            else extract_loop seen' rest)
      else extract_loop seen rest)"

definition extract_speakers :: "string \<Rightarrow> string option \<times> string option" where
  "extract_speakers txt = extract_loop [] (splitlines txt)"

section \<open>The voice catalog and \<^verbatim>\<open>select_voices_for_speakers\<close>\<close>

type_synonym voice = "string \<times> string \<times> string"

definition voice_name :: "voice \<Rightarrow> string" where
  "voice_name v = fst v"

definition voice_gender :: "voice \<Rightarrow> string" where
  "voice_gender v = snd (snd v)"

definition get_available_voices :: "voice list" where
  "get_available_voices =
    [(''Zephyr'', ''Bright'', ''Female''),
     (''Puck'', ''Upbeat'', ''Male''),
     (''Charon'', ''Informative'', ''Male''),
     (''Kore'', ''Firm'', ''Female''),
     (''Fenrir'', ''Excitable'', ''Male''),
     (''Leda'', ''Youthful'', ''Female''),
     (''Orus'', ''Firm'', ''Male''),
     (''Aoede'', ''Breezy'', ''Female''),
     (''Callirrhoe'', ''Easy-going'', ''Female''),
     (''Autonoe'', ''Bright'', ''Female''),
     (''Enceladus'', ''Breathy'', ''Male''),
     (''Iapetus'', ''Clear'', ''Male''),
     (''Umbriel'', ''Easy-going'', ''Male''),
     (''Algieba'', ''Smooth'', ''Male''),
     (''Despina'', ''Smooth'', ''Female''),
     (''Erinome'', ''Clear'', ''Female''),
     (''Algenib'', ''Gravelly'', ''Male''),
     (''Rasalgethi'', ''Informative'', ''Male''),
     (''Laomedeia'', ''Upbeat'', ''Female''),
     (''Achernar'', ''Soft'', ''Female''),
     (''Alnilam'', ''Firm'', ''Male''),
     (''Schedar'', ''Even'', ''Male''),
     (''Gacrux'', ''Mature'', ''Female''),
     (''Pulcherrima'', ''Forward'', ''Female''),
     (''Achird'', ''Friendly'', ''Male''),
     (''Zubenelgenubi'', ''Casual'', ''Male''),
     (''Vindemiatrix'', ''Gentle'', ''Female''),
     (''Sadachbia'', ''Lively'', ''Male''),
     (''Sadaltager'', ''Knowledgeable'', ''Male''),
     (''Sulafat'', ''Warm'', ''Female'')]"

definition py_index :: "'a \<Rightarrow> 'a list \<Rightarrow> nat" where
  \<comment> \<open>\<^verbatim>\<open>xs.index(x)\<close>, called only after \<^verbatim>\<open>x in xs\<close>\<close>
  "py_index x xs = length (takeWhile (\<lambda>y. y \<noteq> x) xs)"

definition assign_voice ::
  "string list \<Rightarrow> (string \<rightharpoonup> string) \<Rightarrow> string \<Rightarrow> string \<Rightarrow> py_error + (string \<rightharpoonup> string)" where
  \<comment> \<open>the body shared by the two branches of the parsing loop\<close>
  "assign_voice voice_names speaker_voices speaker line =
     (case after_sep CHR '':'' line of
        None \<Rightarrow> Inl IndexError
      | Some r \<Rightarrow>
          (let voice_lower = lower (py_strip r);
               voice_names_lower = map lower voice_names
           in if voice_lower \<in> set voice_names_lower
              then Inr (speaker_voices(speaker \<mapsto>
                          voice_names ! py_index voice_lower voice_names_lower))
              else Inr speaker_voices))"

fun parse_suggestions ::
  "string list \<Rightarrow> string \<Rightarrow> string \<Rightarrow> (string \<rightharpoonup> string) \<Rightarrow> string list
     \<Rightarrow> py_error + (string \<rightharpoonup> string)" where
  \<comment> \<open>the \<^verbatim>\<open>for line in lines\<close> loop\<close>
  "parse_suggestions voice_names s1 s2 speaker_voices [] = Inr speaker_voices"
| "parse_suggestions voice_names s1 s2 speaker_voices (line # lines) =
     (if startswith (lower line) (lower s1 @ '':'') then
        (case assign_voice voice_names speaker_voices s1 line of
           Inl e \<Rightarrow> Inl e
         | Inr sv \<Rightarrow> parse_suggestions voice_names s1 s2 sv lines)
      else if startswith (lower line) (lower s2 @ '':'') then
        (case assign_voice voice_names speaker_voices s2 line of
           Inl e \<Rightarrow> Inl e
         | Inr sv \<Rightarrow> parse_suggestions voice_names s1 s2 sv lines)
      else parse_suggestions voice_names s1 s2 speaker_voices lines)"

definition fallback_voices ::
  "voice list \<Rightarrow> string \<Rightarrow> string \<Rightarrow> (string \<rightharpoonup> string) \<Rightarrow> py_error + (string \<rightharpoonup> string)" where
  \<comment> \<open>the two \<^verbatim>\<open>if ... not in speaker_voices\<close> blocks after the loop\<close>
  "fallback_voices available_voices s1 s2 speaker_voices =
     (let voice_names = map voice_name available_voices;
          male_voices = map voice_name (filter (\<lambda>v. voice_gender v = ''Male'') available_voices);
          female_voices =
            map voice_name (filter (\<lambda>v. voice_gender v = ''Female'') available_voices)
      in case (if speaker_voices s1 = None
               then (case male_voices of
                       [] \<Rightarrow> Inl IndexError
                     | m # _ \<Rightarrow> Inr (speaker_voices(s1 \<mapsto> m)))
               else Inr speaker_voices) of
           Inl e \<Rightarrow> Inl e
         | Inr sv \<Rightarrow>
             if sv s2 = None then
               (case sv s1 of
                  None \<Rightarrow> Inl KeyError
                | Some voice1 \<Rightarrow>
                    (let voice1_gender =
                           (case find (\<lambda>v. voice_name v = voice1) available_voices of
                              Some v \<Rightarrow> voice_gender v
                            | None \<Rightarrow> ''Male'')
                     in if voice1_gender = ''Male'' \<and> female_voices \<noteq> []
                        then Inr (sv(s2 \<mapsto> hd female_voices))
                        else if male_voices \<noteq> [] then Inr (sv(s2 \<mapsto> hd male_voices))
                        else (case find (\<lambda>n. n \<noteq> voice1) voice_names of
                                Some n \<Rightarrow> Inr (sv(s2 \<mapsto> n))
                              | None \<Rightarrow> Inr (sv(s2 \<mapsto> voice1)))))
             else Inr sv)"

definition select_voices_from ::
  "voice list \<Rightarrow> string \<Rightarrow> string \<Rightarrow> string \<Rightarrow> py_error + (string \<rightharpoonup> string)" where
  \<comment> \<open>lines 118-163 with the catalog as an argument; \<open>reply\<close> is the text of the first part
      of the suggestion service's first candidate\<close>
  "select_voices_from available_voices reply speaker1_name speaker2_name =
     (case parse_suggestions (map voice_name available_voices) speaker1_name speaker2_name
             Map.empty (split_on CHR 0x0A (py_strip reply)) of
        Inl e \<Rightarrow> Inl e
      | Inr speaker_voices \<Rightarrow>
          fallback_voices available_voices speaker1_name speaker2_name speaker_voices)"

definition select_voices_for_speakers ::
  "string \<Rightarrow> string \<Rightarrow> string \<Rightarrow> py_error + (string \<rightharpoonup> string)" where
  "select_voices_for_speakers reply speaker1_name speaker2_name =
     select_voices_from get_available_voices reply speaker1_name speaker2_name"

section \<open>The streaming loop, \<^verbatim>\<open>generate\<close> and the script's entry point\<close>

text \<open>
  What the process does is recorded as a list of events, oldest first: what it prints, the
  two service calls and the files it writes. The files written so far are kept with their
  current content. Failures of the operating system while writing are not modelled.
\<close>

datatype message =
    Welcome | No_api_key | Set_api_key_hint | Ask_script_path
  | File_not_found string | Using_filename string | Extracting_speakers
  | Detected_speakers string string | Selecting_voices
  | Selected_voices | Voice_of string string | Generating_audio
  | Converting_to_wav | File_saved string | Chunk_text "string option"

datatype event =
    Print message
  | Suggestion_call string string string string
      \<comment> \<open>model, script, first and second speaker\<close>
  | Generation_call string string string string string string
      \<comment> \<open>model, script, first speaker and voice, second speaker and voice\<close>
  | File_write string "byte list"

record run_state =
  written :: "string \<rightharpoonup> byte list"
  trace :: "event list"

definition emit :: "event list \<Rightarrow> run_state \<Rightarrow> run_state" where
  "emit es st = st\<lparr>trace := trace st @ es\<rparr>"

definition save_binary_file :: "string \<Rightarrow> byte list \<Rightarrow> run_state \<Rightarrow> run_state" where
  "save_binary_file file_name bs st =
     st\<lparr>written := (written st)(file_name \<mapsto> bs),
        trace := trace st @ [File_write file_name bs, Print (File_saved file_name)]\<rparr>"

text \<open>
  A chunk of the generation stream, as far as the loop reads it: the candidates (none when
  the field is absent), each with its \<^verbatim>\<open>content.parts\<close> (\<open>None\<close> when the candidate has
  no content, which makes the loop raise; the empty list when the parts are absent), the
  first part's \<^verbatim>\<open>inline_data\<close>, a payload with its bytes and its media type, and what the
  chunk's \<^verbatim>\<open>text\<close> property returns.
\<close>

record blob =
  blob_data :: "byte list"
  mime_type :: string

record part =
  inline_data :: "blob option"

record candidate =
  content_parts :: "part list option"

record chunk =
  candidates :: "candidate list"
  chunk_text :: "string option"

definition file_extension :: "(string \<Rightarrow> string option) \<Rightarrow> string \<Rightarrow> string" where
  \<comment> \<open>\<^verbatim>\<open>mimetypes.guess_extension(mime) or ".wav"\<close>; the guessing table is an argument\<close>
  "file_extension guess mime =
     (case guess mime of None \<Rightarrow> ''.wav'' | Some e \<Rightarrow> if e = [] then ''.wav'' else e)"

definition process_chunk ::
  "(string \<Rightarrow> string option) \<Rightarrow> string \<Rightarrow> chunk \<Rightarrow> run_state \<Rightarrow> py_error option \<times> run_state" where
  \<comment> \<open>the body of the \<^verbatim>\<open>for chunk in ...\<close> loop; \<open>Some e\<close> is the exception that ends the run\<close>
  "process_chunk guess file_name c st =
     (case candidates c of
        [] \<Rightarrow> (None, st)
      | cand # _ \<Rightarrow>
          (case content_parts cand of
             None \<Rightarrow> (Some AttributeError, st)
           | Some [] \<Rightarrow> (None, st)
           | Some (p # _) \<Rightarrow>
               (case inline_data p of
                  None \<Rightarrow> (None, emit [Print (Chunk_text (chunk_text c))] st)
                | Some b \<Rightarrow>
                    (let mime = mime_type b;
                         ext = file_extension guess mime
                     in if mime \<noteq> ''audio/wav'' then
                          (case convert_to_wav (blob_data b) mime of
                             Inl e \<Rightarrow> (Some e, emit [Print Converting_to_wav] st)
                           | Inr wav \<Rightarrow>
                               (None, save_binary_file (file_name @ ext) wav
                                        (emit [Print Converting_to_wav] st)))
                        else (None, save_binary_file (file_name @ ext) (blob_data b) st)))))"

fun stream_loop ::
  "(string \<Rightarrow> string option) \<Rightarrow> string \<Rightarrow> chunk list \<Rightarrow> run_state \<Rightarrow> py_error option \<times> run_state" where
  "stream_loop guess file_name [] st = (None, st)"
| "stream_loop guess file_name (c # cs) st =
     (case process_chunk guess file_name c st of
        (Some e, st') \<Rightarrow> (Some e, st')
      | (None, st') \<Rightarrow> stream_loop guess file_name cs st')"

text \<open>
  The surroundings of one run: the credential, the line typed when the script path is
  asked for, the readable text files, the two library functions \<^verbatim>\<open>Path(...).stem\<close> and
  \<^verbatim>\<open>mimetypes.guess_extension\<close>, and what the two services answer (the reply text of the
  suggestion service or the exception of the call; the chunks of the generation stream and
  the exception that ends it, if any).
\<close>

record world =
  api_key :: "string option"
  typed_line :: string
  text_files :: "string \<rightharpoonup> string"
  path_stem :: "string \<Rightarrow> string"
  guess_extension :: "string \<Rightarrow> string option"
  suggestion_reply :: "py_error + string"
  audio_stream :: "chunk list"
  stream_failure :: "py_error option"

definition speaker_part :: "string \<Rightarrow> string" where
  \<comment> \<open>\<^verbatim>\<open>speaker.lower().replace(" ", "_")\<close>\<close>
  "speaker_part s = map (\<lambda>c. if c = CHR '' '' then CHR ''_'' else c) (lower s)"

definition model_tts :: string where
  "model_tts = ''gemini-2.5-flash-preview-tts''"

definition model_chat :: string where
  "model_chat = ''gemini-2.5-flash-preview-04-17''"

definition generate_audio ::
  "world \<Rightarrow> string \<Rightarrow> string \<Rightarrow> string \<Rightarrow> string \<Rightarrow> run_state \<Rightarrow> py_error option \<times> run_state" where
  \<comment> \<open>lines 219-294: voice selection, then the streaming loop; a dictionary lookup of a
      missing speaker is the KeyError\<close>
  "generate_audio w user_prompt file_name speaker1 speaker2 st =
     (let st1 = emit [Suggestion_call model_chat user_prompt speaker1 speaker2] st
      in case suggestion_reply w of
           Inl e \<Rightarrow> (Some e, st1)
         | Inr reply \<Rightarrow>
             (case select_voices_for_speakers reply speaker1 speaker2 of
                Inl e \<Rightarrow> (Some e, st1)
              | Inr speaker_voices \<Rightarrow>
                  (let st2 = emit [Print Selected_voices] st1
                   in case speaker_voices speaker1 of
                        None \<Rightarrow> (Some KeyError, st2)
                      | Some v1 \<Rightarrow>
                          (let st3 = emit [Print (Voice_of speaker1 v1)] st2
                           in case speaker_voices speaker2 of
                                None \<Rightarrow> (Some KeyError, st3)
                              | Some v2 \<Rightarrow>
                                  (let st4 = emit [Print (Voice_of speaker2 v2),
                                                   Print Generating_audio,
                                                   Generation_call model_tts user_prompt
                                                     speaker1 v1 speaker2 v2] st3
                                   in case stream_loop (guess_extension w) file_name
                                             (audio_stream w) st4 of
                                        (Some e, st5) \<Rightarrow> (Some e, st5)
                                      | (None, st5) \<Rightarrow> (stream_failure w, st5))))))"

definition truthy :: "string option \<Rightarrow> bool" where
  \<comment> \<open>Python's truth value of a string or \<^verbatim>\<open>None\<close>\<close>
  "truthy x = (case x of None \<Rightarrow> False | Some s \<Rightarrow> s \<noteq> [])"

definition or_default :: "string \<Rightarrow> string option \<Rightarrow> string" where
  "or_default d x = (case x of None \<Rightarrow> d | Some s \<Rightarrow> if s = [] then d else s)"

definition generate :: "world \<Rightarrow> string \<Rightarrow> string option \<Rightarrow> run_state \<Rightarrow> py_error option \<times> run_state" where
  "generate w script_path0 output_file st0 =
     (let (script_path, st) =
            (if script_path0 = [] then (py_strip (typed_line w), emit [Print Ask_script_path] st0)
             else (script_path0, st0))
      in case text_files w script_path of
           None \<Rightarrow> (None, emit [Print (File_not_found script_path)] st)
         | Some user_prompt \<Rightarrow>
             (let (speaker1, speaker2) = extract_speakers user_prompt;
                  smart = truthy speaker1 \<and> truthy speaker2;
                  file_name =
                    (if truthy output_file then or_default [] output_file
                     else if smart
                       then speaker_part (or_default [] speaker1) @ ''_''
                              @ speaker_part (or_default [] speaker2)
                     else or_default ''output_audio'' (Some (path_stem w script_path)));
                  st1 = emit ((if \<not> truthy output_file \<and> \<not> smart
                               then [Print (Using_filename file_name)] else [])
                              @ [Print Extracting_speakers]) st;
                  s1 = or_default ''Speaker 1'' speaker1;
                  s2 = or_default ''Speaker 2'' speaker2;
                  st2 = emit [Print (Detected_speakers s1 s2), Print Selecting_voices] st1
              in generate_audio w user_prompt file_name s1 s2 st2))"

record outcome =
  exit_code :: nat
  uncaught :: "py_error option"
  final :: run_state

definition main :: "world \<Rightarrow> string \<Rightarrow> string option \<Rightarrow> outcome" where
  \<comment> \<open>the \<^verbatim>\<open>__main__\<close> block, after the arguments \<^verbatim>\<open>input_file\<close> and \<^verbatim>\<open>--output\<close> are parsed;
      an uncaught exception ends the interpreter with exit code 1\<close>
  "main w input_file output =
     (let st = \<lparr>written = Map.empty, trace = [Print Welcome]\<rparr>
      in if api_key w = None \<or> api_key w = Some [] then
           \<lparr>exit_code = 1, uncaught = None,
            final = emit [Print No_api_key, Print Set_api_key_hint] st\<rparr>
         else (case generate w input_file output st of
                 (None, st') \<Rightarrow> \<lparr>exit_code = 0, uncaught = None, final = st'\<rparr>
               | (Some e, st') \<Rightarrow> \<lparr>exit_code = 1, uncaught = Some e, final = st'\<rparr>))"

section \<open>Notions the theorems are stated in\<close>


text \<open>Reading an unsigned little-endian field back from its bytes.\<close>

fun le_decode :: "byte list \<Rightarrow> int" where
  "le_decode [] = 0"
| "le_decode (b # bs) = uint b + 256 * le_decode bs"

definition wav_header :: "int \<Rightarrow> int \<Rightarrow> int \<Rightarrow> byte list" where
  \<comment> \<open>the header the specification lays out, for a bit depth, a sample rate and a
      payload length\<close>
  "wav_header bits sr n =
     ascii_bytes ''RIFF'' @ le_bytes 4 (36 + n) @ ascii_bytes ''WAVE'' @ ascii_bytes ''fmt ''
     @ le_bytes 4 16 @ le_bytes 2 1 @ le_bytes 2 1 @ le_bytes 4 sr @ le_bytes 4 (sr * (bits div 8))
     @ le_bytes 2 (bits div 8) @ le_bytes 2 bits @ ascii_bytes ''data'' @ le_bytes 4 n"


definition colon_names :: "string \<Rightarrow> string list" where
  \<comment> \<open>top to bottom, the trimmed text before the first colon of every line that has a
      colon, empty names left out\<close>
  "colon_names txt =
     filter (\<lambda>n. n \<noteq> [])
       (map (\<lambda>l. py_strip (before_sep CHR '':'' l))
         (filter (\<lambda>l. CHR '':'' \<in> set l) (splitlines txt)))"

fun first_occurrences :: "'a list \<Rightarrow> 'a list" where
  \<comment> \<open>the distinct elements in order of first appearance\<close>
  "first_occurrences [] = []"
| "first_occurrences (x # xs) = x # first_occurrences (removeAll x xs)"

definition pad_pair :: "'a list \<Rightarrow> 'a option \<times> 'a option" where
  "pad_pair xs =
     (case xs of [] \<Rightarrow> (None, None) | [a] \<Rightarrow> (Some a, None) | a # b # _ \<Rightarrow> (Some a, Some b))"

definition names_of_lines :: "string list \<Rightarrow> string list" where
  \<comment> \<open>\<open>colon_names\<close> for a text already split into lines\<close>
  "names_of_lines ls =
     filter (\<lambda>n. n \<noteq> [])
       (map (\<lambda>l. py_strip (before_sep CHR '':'' l)) (filter (\<lambda>l. CHR '':'' \<in> set l) ls))"

text \<open>What a line of the suggestion reply says about a speaker.\<close>

definition reply_lines :: "string \<Rightarrow> string list" where
  \<comment> \<open>the lines of the suggestion reply, as \<^verbatim>\<open>select_voices_for_speakers\<close> splits them\<close>
  "reply_lines reply = split_on CHR 0x0A (py_strip reply)"

definition named_voice :: "string \<Rightarrow> string \<Rightarrow> string \<Rightarrow> bool" where
  \<comment> \<open>line \<open>l\<close> starts, in any casing, with the speaker's name and a colon, and the trimmed
      text after the line's first colon is the voice name \<open>v\<close> in any casing\<close>
  "named_voice s v l \<longleftrightarrow>
     startswith (lower l) (lower s @ '':'')
     \<and> (case after_sep CHR '':'' l of None \<Rightarrow> False | Some r \<Rightarrow> lower (py_strip r) = lower v)"








definition guess_nothing :: "string \<Rightarrow> string option" where
  "guess_nothing mime = None"


definition example_world :: world where
  \<comment> \<open>a credential is set and no file exists\<close>
  "example_world =
     \<lparr>api_key = Some ''secret'', typed_line = [], text_files = Map.empty,
      path_stem = (\<lambda>p. p), guess_extension = guess_nothing, suggestion_reply = Inr [],
      audio_stream = [], stream_failure = None\<rparr>"

section \<open>The media-type parser\<close>






lemma contains_decompose: "contains s p \<Longrightarrow> \<exists>a b. s = a @ p @ b"
proof (induction s)
  case Nil
  then show ?case by simp
next
  case (Cons c cs)
  from Cons.prems have "prefix p (c # cs) \<or> contains cs p" by simp
  then show ?case
  proof
    assume "prefix p (c # cs)"
    then obtain b where "c # cs = p @ b" by (auto simp: prefix_def)
    then have "c # cs = [] @ p @ b" by simp
    then show ?thesis by blast
  next
    assume "contains cs p"
    with Cons.IH obtain a b where "cs = a @ p @ b" by blast
    then have "c # cs = (c # a) @ p @ b" by simp
    then show ?thesis by blast
  qed
qed

lemma scan_digits_chars:
  "scan_digits acc s = Some n \<Longrightarrow> c \<in> set s \<Longrightarrow> is_digit c \<or> c = CHR ''_''"
proof (induction acc s rule: scan_digits.induct)
  case (1 acc)
  then show ?case by simp
next
  case (2 acc d ds)
  then show ?case
    by (auto split: if_splits list.splits)
qed

lemma parse_digits_chars:
  "parse_digits s = Some n \<Longrightarrow> c \<in> set s \<Longrightarrow> is_digit c \<or> c = CHR ''_''"
  by (auto simp: parse_digits_def split: list.splits if_splits dest: scan_digits_chars)

lemma set_trimmed:
  "c \<in> set s \<Longrightarrow> P c \<or> c \<in> set (rev (dropWhile P (rev (dropWhile P s))))"
proof -
  assume c: "c \<in> set s"
  have "set s = set (takeWhile P s) \<union> set (dropWhile P s)"
    by (metis set_append takeWhile_dropWhile_id)
  moreover have "set (dropWhile P s) = set (takeWhile P (rev (dropWhile P s)))
      \<union> set (dropWhile P (rev (dropWhile P s)))"
    by (metis set_append set_rev takeWhile_dropWhile_id)
  ultimately show ?thesis using c by (auto dest: set_takeWhileD)
qed

lemma py_int_chars:
  assumes "py_int s = Some n" and "c \<in> set s"
  shows "is_int_space c \<or> is_digit c \<or> c = CHR ''_'' \<or> c = CHR ''+'' \<or> c = CHR ''-''"
proof -
  let ?core = "rev (dropWhile is_int_space (rev (dropWhile is_int_space s)))"
  from assms(2) have "is_int_space c \<or> c \<in> set ?core" by (rule set_trimmed)
  moreover have "is_digit c \<or> c = CHR ''_'' \<or> c = CHR ''+'' \<or> c = CHR ''-''" if "c \<in> set ?core"
  proof (cases ?core)
    case Nil
    with that show ?thesis by simp
  next
    case (Cons d ds)
    with assms(1) that show ?thesis
      by (auto simp: py_int_def split: if_splits dest: parse_digits_chars)
  qed
  ultimately show ?thesis by blast
qed

lemma py_int_letter_a: "CHR ''a'' \<in> set s \<Longrightarrow> py_int s = None"
proof (rule ccontr)
  assume a: "CHR ''a'' \<in> set s" and "py_int s \<noteq> None"
  then obtain n where "py_int s = Some n" by auto
  from py_int_chars [OF this a] show False
    by (simp add: is_int_space_def is_digit_def)
qed

lemma after_sep_first:
  assumes "sep \<notin> set a"
  shows "after_sep sep (a @ sep # r) = Some r"
proof -
  have "dropWhile (\<lambda>c. c \<noteq> sep) (a @ sep # r) = dropWhile (\<lambda>c. c \<noteq> sep) (sep # r)"
    using assms by (intro dropWhile_append2) auto
  then show ?thesis by (simp add: after_sep_def)
qed

lemma after_first_suffix:
  "sep \<notin> set a \<Longrightarrow> a @ sep # rest = x @ sep # w \<Longrightarrow> \<exists>u. rest = u @ w"
proof (induction a arbitrary: x)
  case Nil
  then show ?case by (cases x) auto
next
  case (Cons c a)
  then show ?case by (cases x) auto
qed

lemma parse_param_bits_kept:
  assumes "contains (py_strip seg) ''audio/L''
           \<longrightarrow> (\<exists>x y z. py_strip seg = x @ ''L'' @ y @ ''audio/L'' @ z)"
  shows "bits_per_sample (parse_param ps seg) = bits_per_sample ps"
proof (cases "\<not> startswith (lower (py_strip seg)) ''rate='' \<and> contains (py_strip seg) ''audio/L''")
  case False
  then show ?thesis
    by (auto simp: parse_param_def Let_def split: option.splits)
next
  case True
  with assms obtain x y z where xyz: "py_strip seg = x @ CHR ''L'' # (y @ ''audio/L'' @ z)"
    by auto
  then have "CHR ''L'' \<in> set (py_strip seg)" by simp
  then obtain a1 rest where a: "py_strip seg = a1 @ CHR ''L'' # rest" and a1: "CHR ''L'' \<notin> set a1"
    by (meson split_list_first)
  have eq: "a1 @ CHR ''L'' # rest = x @ CHR ''L'' # (y @ ''audio/L'' @ z)"
    by (rule trans [OF a [symmetric] xyz])
  from after_first_suffix [OF a1 eq] obtain u where "rest = u @ (y @ ''audio/L'' @ z)" ..
  then have "CHR ''a'' \<in> set rest" by simp
  then have "py_int rest = None" by (rule py_int_letter_a)
  moreover have "after_sep CHR ''L'' (py_strip seg) = Some rest"
    unfolding a using a1 by (rule after_sep_first)
  ultimately show ?thesis using True
    by (simp add: parse_param_def Let_def)
qed

lemma foldl_parse_param_bits_kept:
  "\<forall>seg \<in> set segs. contains (py_strip seg) ''audio/L''
           \<longrightarrow> (\<exists>x y z. py_strip seg = x @ ''L'' @ y @ ''audio/L'' @ z)
   \<Longrightarrow> bits_per_sample (foldl parse_param ps segs) = bits_per_sample ps"
proof (induction segs arbitrary: ps)
  case Nil
  then show ?case by simp
next
  case (Cons seg segs)
  then show ?case by (simp add: parse_param_bits_kept)
qed

lemma lower_char_small:
  assumes "(of_char d :: nat) < 65"
  shows "lower_char c = d \<longleftrightarrow> c = d"
proof (cases "(65 \<le> (of_char c :: nat) \<and> (of_char c :: nat) \<le> 90)
        \<or> (192 \<le> (of_char c :: nat) \<and> (of_char c :: nat) \<le> 222 \<and> (of_char c :: nat) \<noteq> 215)")
  case False
  have "lower_char c = c"
    by (simp only: lower_char_def Let_def False if_False)
  then show ?thesis by simp
next
  case True
  define n where "n = (of_char c :: nat)"
  from True have range: "65 \<le> n" "n \<le> 222" by (auto simp: n_def)
  have low: "lower_char c = char_of (n + 32)"
    using True by (simp add: lower_char_def Let_def n_def)
  have "(of_char (lower_char c) :: nat) = (n + 32) mod 256"
    unfolding low by simp
  also have "\<dots> = n + 32" using range by simp
  finally have "(of_char (lower_char c) :: nat) \<noteq> of_char d" using assms range by simp
  then have "lower_char c \<noteq> d" by auto
  moreover have "c \<noteq> d" using assms range by (auto simp: n_def)
  ultimately show ?thesis by simp
qed

lemma lower_char_equals: "lower_char c = CHR ''='' \<longleftrightarrow> c = CHR ''=''"
  by (rule lower_char_small) simp

lemma lower_char_colon: "lower_char c = CHR '':'' \<longleftrightarrow> c = CHR '':''"
  by (rule lower_char_small) simp

lemma lower_char_not_equals: "lower_char c = d \<Longrightarrow> d \<noteq> CHR ''='' \<Longrightarrow> c \<noteq> CHR ''=''"
  using lower_char_equals by blast

lemma parse_param_rate_any_case:
  assumes "lower (take 5 (py_strip seg)) = ''rate=''"
    and "py_int (drop 5 (py_strip seg)) = Some n"
  shows "parse_param ps seg = ps\<lparr>rate := n\<rparr>"
proof -
  define p where "p = py_strip seg"
  from assms(1) obtain c0 c1 c2 c3 c4 where
    t: "take 5 p = [c0, c1, c2, c3, c4]" and
    c: "lower_char c0 = CHR ''r''" "lower_char c1 = CHR ''a''" "lower_char c2 = CHR ''t''"
       "lower_char c3 = CHR ''e''" "lower_char c4 = CHR ''=''"
    unfolding p_def lower_def by (auto simp: map_eq_Cons_conv)
  from c(5) have c4: "c4 = CHR ''=''" by (simp add: lower_char_equals)
  have "p = take 5 p @ drop 5 p" by simp
  then have p: "p = [c0, c1, c2, c3] @ CHR ''='' # drop 5 p"
    unfolding t c4 by simp
  have "c0 \<noteq> CHR ''=''" by (rule lower_char_not_equals [OF c(1)]) simp
  moreover have "c1 \<noteq> CHR ''=''" by (rule lower_char_not_equals [OF c(2)]) simp
  moreover have "c2 \<noteq> CHR ''=''" by (rule lower_char_not_equals [OF c(3)]) simp
  moreover have "c3 \<noteq> CHR ''=''" by (rule lower_char_not_equals [OF c(4)]) simp
  ultimately have "CHR ''='' \<notin> set [c0, c1, c2, c3]" by auto
  then have "after_sep CHR ''='' ([c0, c1, c2, c3] @ CHR ''='' # drop 5 p) = Some (drop 5 p)"
    by (rule after_sep_first)
  with p have after: "after_sep CHR ''='' p = Some (drop 5 p)" by simp
  have "lower p = lower (take 5 p @ drop 5 p)" by simp
  also have "\<dots> = lower (take 5 p) @ lower (drop 5 p)"
    unfolding lower_def by (rule map_append)
  finally have "prefix (lower (take 5 p)) (lower p)" by (simp add: prefix_def)
  then have "startswith (lower p) ''rate=''"
    using assms(1) by (simp add: startswith_def p_def)
  with after assms(2) show ?thesis
    by (simp add: parse_param_def Let_def p_def)
qed

lemma contains_prefix: "prefix p s \<Longrightarrow> contains s p"
  by (cases s) auto

lemma contains_append: "contains (a @ p @ r) p"
  by (induction a) (simp_all add: contains_prefix)

lemma parse_param_bits_first_L:
  assumes "\<not> startswith (lower (py_strip seg)) ''rate=''"
    and "py_strip seg = a @ ''audio/L'' @ r" and "CHR ''L'' \<notin> set a" and "py_int r = Some n"
  shows "parse_param ps seg = ps\<lparr>bits_per_sample := n\<rparr>"
proof -
  have "CHR ''L'' \<notin> set (a @ ''audio/'')" using assms(3) by simp
  then have "after_sep CHR ''L'' ((a @ ''audio/'') @ CHR ''L'' # r) = Some r"
    by (rule after_sep_first)
  then have "after_sep CHR ''L'' (py_strip seg) = Some r"
    using assms(2) by simp
  moreover have "contains (py_strip seg) ''audio/L''"
    unfolding assms(2) by (rule contains_append)
  ultimately show ?thesis using assms(1,4)
    by (simp add: parse_param_def Let_def)
qed

text \<open>
  Claim C10. The rate match ignores case, the bits match needs the literal substring
  \<^verbatim>\<open>audio/L\<close>: \<^verbatim>\<open>AUDIO/L24;RATE=8000\<close> gives the default 16 bits and 8000 Hz. A segment
  whose first five characters are \<^verbatim>\<open>rate=\<close> in any casing sets the rate to the integer
  after them; a segment with \<^verbatim>\<open>audio/L\<close> and no earlier \<^verbatim>\<open>L\<close> sets the bits to the integer
  after that \<^verbatim>\<open>L\<close>; and when, in every segment that contains \<^verbatim>\<open>audio/L\<close>, another \<^verbatim>\<open>L\<close>
  precedes an occurrence of it, the bits stay at the default.
\<close>

theorem mime_case_sensitivity:
  "parse_audio_mime_type ''AUDIO/L24;RATE=8000'' = \<lparr>bits_per_sample = 16, rate = 8000\<rparr>
   \<and> (lower (take 5 (py_strip seg)) = ''rate='' \<and> py_int (drop 5 (py_strip seg)) = Some n
        \<longrightarrow> parse_param ps seg = ps\<lparr>rate := n\<rparr>)
   \<and> (\<not> startswith (lower (py_strip seg)) ''rate='' \<and> py_strip seg = a @ ''audio/L'' @ r
        \<and> CHR ''L'' \<notin> set a \<and> py_int r = Some n
        \<longrightarrow> parse_param ps seg = ps\<lparr>bits_per_sample := n\<rparr>)
   \<and> ((\<forall>seg \<in> set (split_on CHR '';'' mime). contains (py_strip seg) ''audio/L''
          \<longrightarrow> (\<exists>x y z. py_strip seg = x @ ''L'' @ y @ ''audio/L'' @ z))
        \<longrightarrow> bits_per_sample (parse_audio_mime_type mime) = 16)"
proof (intro conjI impI)
  show "parse_audio_mime_type ''AUDIO/L24;RATE=8000'' = \<lparr>bits_per_sample = 16, rate = 8000\<rparr>"
    by code_simp
next
  assume "lower (take 5 (py_strip seg)) = ''rate='' \<and> py_int (drop 5 (py_strip seg)) = Some n"
  then show "parse_param ps seg = ps\<lparr>rate := n\<rparr>"
    by (simp add: parse_param_rate_any_case)
next
  assume "\<not> startswith (lower (py_strip seg)) ''rate='' \<and> py_strip seg = a @ ''audio/L'' @ r
        \<and> CHR ''L'' \<notin> set a \<and> py_int r = Some n"
  then show "parse_param ps seg = ps\<lparr>bits_per_sample := n\<rparr>"
    using parse_param_bits_first_L by blast
next
  assume "\<forall>seg \<in> set (split_on CHR '';'' mime). contains (py_strip seg) ''audio/L''
          \<longrightarrow> (\<exists>x y z. py_strip seg = x @ ''L'' @ y @ ''audio/L'' @ z)"
  then show "bits_per_sample (parse_audio_mime_type mime) = 16"
    unfolding parse_audio_mime_type_def by (simp add: foldl_parse_param_bits_kept)
qed

theorem mime_case_sensitivity_witness:
  "(lower (take 5 (py_strip '' RaTe=8000'')) = ''rate=''
      \<and> py_int (drop 5 (py_strip '' RaTe=8000'')) = Some 8000)
   \<and> parse_param \<lparr>bits_per_sample = 16, rate = 24000\<rparr> '' RaTe=8000''
       = \<lparr>bits_per_sample = 16, rate = 8000\<rparr>
   \<and> (\<not> startswith (lower (py_strip ''codec=audio/L24'')) ''rate=''
      \<and> py_strip ''codec=audio/L24'' = ''codec='' @ ''audio/L'' @ ''24''
      \<and> CHR ''L'' \<notin> set ''codec='' \<and> py_int ''24'' = Some 24)
   \<and> parse_param \<lparr>bits_per_sample = 16, rate = 24000\<rparr> ''codec=audio/L24''
       = \<lparr>bits_per_sample = 24, rate = 24000\<rparr>
   \<and> split_on CHR '';'' ''Laudio/L24;rate=8000'' = [''Laudio/L24'', ''rate=8000'']
   \<and> py_strip ''Laudio/L24'' = [] @ ''L'' @ [] @ ''audio/L'' @ ''24''
   \<and> \<not> contains (py_strip ''rate=8000'') ''audio/L''
   \<and> bits_per_sample (parse_audio_mime_type ''Laudio/L24;rate=8000'') = 16"
proof -
  let ?ps = "\<lparr>bits_per_sample = 16, rate = 24000\<rparr>"
  have h1: "lower (take 5 (py_strip '' RaTe=8000'')) = ''rate=''
      \<and> py_int (drop 5 (py_strip '' RaTe=8000'')) = Some 8000"
    by code_simp
  have h2: "\<not> startswith (lower (py_strip ''codec=audio/L24'')) ''rate=''
      \<and> py_strip ''codec=audio/L24'' = ''codec='' @ ''audio/L'' @ ''24''
      \<and> CHR ''L'' \<notin> set ''codec='' \<and> py_int ''24'' = Some 24"
    by code_simp
  have s1: "py_strip ''Laudio/L24'' = [] @ ''L'' @ [] @ ''audio/L'' @ ''24''"
    by code_simp
  have s2: "\<not> contains (py_strip ''rate=8000'') ''audio/L''"
    by code_simp
  have segs: "split_on CHR '';'' ''Laudio/L24;rate=8000'' = [''Laudio/L24'', ''rate=8000'']"
    by code_simp
  have h3: "\<forall>seg \<in> set (split_on CHR '';'' ''Laudio/L24;rate=8000''). contains (py_strip seg) ''audio/L''
          \<longrightarrow> (\<exists>x y z. py_strip seg = x @ ''L'' @ y @ ''audio/L'' @ z)"
    unfolding segs using s1 s2 by (simp only: list.set ball_simps) blast
  have "parse_param ?ps '' RaTe=8000'' = ?ps\<lparr>rate := 8000\<rparr>"
    using mime_case_sensitivity [of "'' RaTe=8000''" 8000 ?ps] h1 by blast
  then have c1: "parse_param ?ps '' RaTe=8000'' = \<lparr>bits_per_sample = 16, rate = 8000\<rparr>"
    by simp
  have "parse_param ?ps ''codec=audio/L24'' = ?ps\<lparr>bits_per_sample := 24\<rparr>"
    using mime_case_sensitivity [of "''codec=audio/L24''" 24 ?ps "''codec=''" "''24''"] h2 by blast
  then have c2: "parse_param ?ps ''codec=audio/L24'' = \<lparr>bits_per_sample = 24, rate = 24000\<rparr>"
    by simp
  have c3: "bits_per_sample (parse_audio_mime_type ''Laudio/L24;rate=8000'') = 16"
    using mime_case_sensitivity [of _ _ _ _ _ "''Laudio/L24;rate=8000''"] h3 by blast
  from h1 h2 s1 s2 segs c1 c2 c3 show ?thesis by blast
qed

section \<open>The WAV encoder\<close>

lemma length_le_bytes: "length (le_bytes k n) = k"
  by (simp add: le_bytes_def)

lemma le_bytes_Suc: "le_bytes (Suc k) n = word_of_int n # le_bytes k (n div 256)"
proof -
  have "[0..<Suc k] = 0 # map Suc [0..<k]"
    by (simp add: upt_conv_Cons map_Suc_upt del: upt_Suc)
  moreover have "n div 256 ^ Suc i = (n div 256) div 256 ^ i" for i
    by (simp add: zdiv_zmult2_eq)
  ultimately show ?thesis
    by (simp add: le_bytes_def comp_def del: upt_Suc power_Suc)
qed

lemma le_decode_le_bytes:
  "0 \<le> n \<Longrightarrow> n < 256 ^ k \<Longrightarrow> le_decode (le_bytes k n) = n"
proof (induction k arbitrary: n)
  case 0
  then show ?case by (simp add: le_bytes_def)
next
  case (Suc k)
  have "n < 256 * 256 ^ k" using Suc.prems by simp
  then have "n div 256 < 256 ^ k" by (simp add: div_less_iff_less_mult mult.commute)
  moreover have "0 \<le> n div 256" using Suc.prems by simp
  ultimately have "le_decode (le_bytes k (n div 256)) = n div 256" by (rule Suc.IH[rotated])
  moreover have "uint (word_of_int n :: byte) = n mod 256"
    by (simp add: uint_word_of_int take_bit_eq_mod)
  ultimately show ?case by (simp add: le_bytes_Suc)
qed


lemma length_ascii_bytes: "length (ascii_bytes s) = length s"
  by (simp add: ascii_bytes_def)

lemma convert_to_wav_header:
  assumes "bits_per_sample (parse_audio_mime_type mime) = bits"
    and "rate (parse_audio_mime_type mime) = sr"
    and "0 \<le> bits" "bits < 65536" "0 \<le> sr" "sr < 2 ^ 32"
    and "sr * (bits div 8) < 2 ^ 32" "36 + int (length payload) < 2 ^ 32"
  shows "convert_to_wav payload mime = Inr (wav_header bits sr (int (length payload)) @ payload)"
proof -
  have ba: "0 \<le> bits div 8" "bits div 8 < 2 ^ 16"
    using assms(3,4) by simp_all
  have br: "0 \<le> sr * (bits div 8)" using assms(5) ba(1) by simp
  have ds: "int (length payload) < 2 ^ 32" using assms(8) by simp
  show ?thesis
    using assms ba br ds
    by (simp add: convert_to_wav_def Let_def wav_header_def length_ascii_bytes)
qed


lemma length_wav_header: "length (wav_header bits sr n) = 44"
  by (simp add: wav_header_def length_ascii_bytes length_le_bytes)

lemma wav_header_fields:
  assumes "0 \<le> bits" "bits < 65536" "0 \<le> sr" "sr < 2 ^ 32"
    and "sr * (bits div 8) < 2 ^ 32" "0 \<le> n" "36 + n < 2 ^ 32"
  shows "take 4 (wav_header bits sr n) = ascii_bytes ''RIFF''"
    and "le_decode (take 4 (drop 4 (wav_header bits sr n))) = 36 + n"
    and "take 4 (drop 8 (wav_header bits sr n)) = ascii_bytes ''WAVE''"
    and "take 4 (drop 12 (wav_header bits sr n)) = ascii_bytes ''fmt ''"
    and "le_decode (take 4 (drop 16 (wav_header bits sr n))) = 16"
    and "le_decode (take 2 (drop 20 (wav_header bits sr n))) = 1"
    and "le_decode (take 2 (drop 22 (wav_header bits sr n))) = 1"
    and "le_decode (take 4 (drop 24 (wav_header bits sr n))) = sr"
    and "le_decode (take 4 (drop 28 (wav_header bits sr n))) = sr * (bits div 8)"
    and "le_decode (take 2 (drop 32 (wav_header bits sr n))) = bits div 8"
    and "le_decode (take 2 (drop 34 (wav_header bits sr n))) = bits"
    and "take 4 (drop 36 (wav_header bits sr n)) = ascii_bytes ''data''"
    and "le_decode (take 4 (drop 40 (wav_header bits sr n))) = n"
proof -
  have ba: "0 \<le> bits div 8" "bits div 8 < 256 ^ 2"
    using assms(1,2) by simp_all
  have br: "0 \<le> sr * (bits div 8)" "sr * (bits div 8) < 256 ^ 4"
    using assms(3,5) ba(1) by simp_all
  have b: "bits < 256 ^ 2" using assms(2) by simp
  have s: "sr < 256 ^ 4" using assms(4) by simp
  have n: "n < 256 ^ 4" "36 + n < 256 ^ 4" "0 \<le> 36 + n" using assms(6,7) by simp_all
  note L = length_ascii_bytes length_le_bytes wav_header_def
  show "take 4 (wav_header bits sr n) = ascii_bytes ''RIFF''"
    by (simp add: L)
  show "le_decode (take 4 (drop 4 (wav_header bits sr n))) = 36 + n"
    using n by (simp add: L le_decode_le_bytes del: le_decode.simps)
  show "take 4 (drop 8 (wav_header bits sr n)) = ascii_bytes ''WAVE''"
    by (simp add: L)
  show "take 4 (drop 12 (wav_header bits sr n)) = ascii_bytes ''fmt ''"
    by (simp add: L)
  show "le_decode (take 4 (drop 16 (wav_header bits sr n))) = 16"
    by (simp add: L le_decode_le_bytes)
  show "le_decode (take 2 (drop 20 (wav_header bits sr n))) = 1"
    by (simp add: L le_decode_le_bytes)
  show "le_decode (take 2 (drop 22 (wav_header bits sr n))) = 1"
    by (simp add: L le_decode_le_bytes)
  show "le_decode (take 4 (drop 24 (wav_header bits sr n))) = sr"
    using s assms(3) by (simp add: L le_decode_le_bytes)
  show "le_decode (take 4 (drop 28 (wav_header bits sr n))) = sr * (bits div 8)"
    using br by (simp add: L le_decode_le_bytes)
  show "le_decode (take 2 (drop 32 (wav_header bits sr n))) = bits div 8"
    using ba by (simp add: L le_decode_le_bytes)
  show "le_decode (take 2 (drop 34 (wav_header bits sr n))) = bits"
    using b assms(1) by (simp add: L le_decode_le_bytes)
  show "take 4 (drop 36 (wav_header bits sr n)) = ascii_bytes ''data''"
    by (simp add: L)
  show "le_decode (take 4 (drop 40 (wav_header bits sr n))) = n"
    using n assms(6) by (simp add: L le_decode_le_bytes)
qed

lemmas wav_eval = convert_to_wav_def parse_audio_mime_type_def parse_param_def py_strip_def is_space_def
  startswith_def lower_def lower_char_def after_sep_def py_int_def is_int_space_def
  parse_digits_def is_digit_def digit_val_def Let_def char_of_def bit_Suc_0_iff


text \<open>
  Claim C4, amended. When the bit depth \<open>bits\<close> and the sample rate \<open>sr\<close> parsed from the
  media type fit the header's fields (\<open>bits\<close> a multiple of 8 with \<open>0 \<le> bits < 2^16\<close>,
  \<open>0 \<le> sr < 2^32\<close>, \<open>sr * (bits div 8) < 2^32\<close> and \<open>36 + len(payload) < 2^32\<close>),
  \<^verbatim>\<open>convert_to_wav\<close> returns a 44-byte little-endian header followed by the unmodified
  payload, with the fields RIFF, chunkSize = 36 + len(payload), WAVE, fmt, subchunkSize = 16,
  audioFormat = 1, numChannels = 1, sampleRate, byteRate = sampleRate * blockAlign,
  blockAlign = bits / 8, bitsPerSample, data and dataSize = len(payload).
\<close>

theorem convert_to_wav_layout:
  assumes "bits_per_sample (parse_audio_mime_type mime) = bits"
    and "rate (parse_audio_mime_type mime) = sr"
    and "bits mod 8 = 0" "0 \<le> bits" "bits < 2 ^ 16" "0 \<le> sr" "sr < 2 ^ 32"
    and "sr * (bits div 8) < 2 ^ 32" "36 + int (length payload) < 2 ^ 32"
  shows "\<exists>header. convert_to_wav payload mime = Inr (header @ payload)
      \<and> length header = 44
      \<and> take 4 header = ascii_bytes ''RIFF''
      \<and> le_decode (take 4 (drop 4 header)) = 36 + int (length payload)
      \<and> take 4 (drop 8 header) = ascii_bytes ''WAVE''
      \<and> take 4 (drop 12 header) = ascii_bytes ''fmt ''
      \<and> le_decode (take 4 (drop 16 header)) = 16
      \<and> le_decode (take 2 (drop 20 header)) = 1
      \<and> le_decode (take 2 (drop 22 header)) = 1
      \<and> le_decode (take 4 (drop 24 header)) = sr
      \<and> le_decode (take 4 (drop 28 header)) = sr * le_decode (take 2 (drop 32 header))
      \<and> 8 * le_decode (take 2 (drop 32 header)) = bits
      \<and> le_decode (take 2 (drop 34 header)) = bits
      \<and> take 4 (drop 36 header) = ascii_bytes ''data''
      \<and> le_decode (take 4 (drop 40 header)) = int (length payload)"
proof -
  let ?n = "int (length payload)"
  let ?h = "wav_header bits sr ?n"
  have b: "bits < 65536" using assms(5) by simp
  have c: "convert_to_wav payload mime = Inr (?h @ payload)"
    using assms(1,2,4) b assms(6,7,8,9) by (rule convert_to_wav_header)
  have n: "0 \<le> ?n" by simp
  note f = wav_header_fields [OF assms(4) b assms(6,7,8) n assms(9)]
  have e: "8 * (bits div 8) = bits" using assms(3) by presburger
  show ?thesis
  proof (intro exI conjI)
    show "convert_to_wav payload mime = Inr (?h @ payload)" by (rule c)
    show "length ?h = 44" by (rule length_wav_header)
    show "le_decode (take 4 (drop 28 ?h)) = sr * le_decode (take 2 (drop 32 ?h))"
      by (simp only: f)
    show "8 * le_decode (take 2 (drop 32 ?h)) = bits"
      by (simp only: f e)
  qed (rule f)+
qed

theorem convert_to_wav_layout_witness:
  "\<exists>header. convert_to_wav [1, 2, 3, 4, 5, 6, 7, 8, 9, 10] ''audio/L16;rate=24000''
        = Inr (header @ [1, 2, 3, 4, 5, 6, 7, 8, 9, 10])
      \<and> length header = 44
      \<and> le_decode (take 4 (drop 4 header)) = 46
      \<and> le_decode (take 4 (drop 28 header)) = 24000 * le_decode (take 2 (drop 32 header))
      \<and> 8 * le_decode (take 2 (drop 32 header)) = 16
      \<and> le_decode (take 4 (drop 40 header)) = 10"
proof -
  let ?p = "[1, 2, 3, 4, 5, 6, 7, 8, 9, 10] :: byte list"
  have p: "bits_per_sample (parse_audio_mime_type ''audio/L16;rate=24000'') = 16"
    "rate (parse_audio_mime_type ''audio/L16;rate=24000'') = 24000"
    by (simp_all add: wav_eval)
  have "\<exists>header. convert_to_wav ?p ''audio/L16;rate=24000'' = Inr (header @ ?p)
      \<and> length header = 44
      \<and> take 4 header = ascii_bytes ''RIFF''
      \<and> le_decode (take 4 (drop 4 header)) = 36 + int (length ?p)
      \<and> take 4 (drop 8 header) = ascii_bytes ''WAVE''
      \<and> take 4 (drop 12 header) = ascii_bytes ''fmt ''
      \<and> le_decode (take 4 (drop 16 header)) = 16
      \<and> le_decode (take 2 (drop 20 header)) = 1
      \<and> le_decode (take 2 (drop 22 header)) = 1
      \<and> le_decode (take 4 (drop 24 header)) = 24000
      \<and> le_decode (take 4 (drop 28 header)) = 24000 * le_decode (take 2 (drop 32 header))
      \<and> 8 * le_decode (take 2 (drop 32 header)) = 16
      \<and> le_decode (take 2 (drop 34 header)) = 16
      \<and> take 4 (drop 36 header) = ascii_bytes ''data''
      \<and> le_decode (take 4 (drop 40 header)) = int (length ?p)"
    by (rule convert_to_wav_layout [OF p]) simp_all
  then obtain header where
    a: "convert_to_wav ?p ''audio/L16;rate=24000'' = Inr (header @ ?p)"
    and b: "length header = 44"
    and c: "le_decode (take 4 (drop 4 header)) = 36 + int (length ?p)"
    and d: "le_decode (take 4 (drop 28 header)) = 24000 * le_decode (take 2 (drop 32 header))"
    and e: "8 * le_decode (take 2 (drop 32 header)) = 16"
    and f: "le_decode (take 4 (drop 40 header)) = int (length ?p)"
    by (elim exE conjE)
  from c have c': "le_decode (take 4 (drop 4 header)) = 46" by simp
  from f have f': "le_decode (take 4 (drop 40 header)) = 10" by simp
  show ?thesis
    by (intro exI conjI) (rule a b c' d e f')+
qed

text \<open>
  As first stated, for every bit depth that is a multiple of 8, the claim fails: 65536 is a
  multiple of 8 and does not fit the 16-bit field, so \<^verbatim>\<open>struct.pack\<close> raises.
\<close>

theorem convert_to_wav_range_counterexample:
  "bits_per_sample (parse_audio_mime_type ''audio/L65536'') = 65536
   \<and> (65536 :: int) mod 8 = 0
   \<and> convert_to_wav [1, 2, 3, 4, 5, 6, 7, 8, 9, 10] ''audio/L65536'' = Inl StructError"
  by (simp add: wav_eval)

section \<open>The speaker extractor\<close>

lemma first_occurrences_removeAll_notin:
  "filter (\<lambda>n. n \<noteq> x) ys = removeAll x ys"
  by (induction ys) auto

lemma extract_loop_spec:
  assumes "length seen < 2"
  shows "extract_loop seen ls =
     pad_pair (take 2 (seen @ first_occurrences (filter (\<lambda>n. n \<notin> set seen) (names_of_lines ls))))"
  using assms
proof (induction ls arbitrary: seen)
  case Nil
  then show ?case
    by (cases seen) (auto simp: names_of_lines_def pad_pair_def split: list.splits)
next
  case (Cons line rest)
  show ?case
  proof (cases "CHR '':'' \<in> set line")
    case False
    then have "names_of_lines (line # rest) = names_of_lines rest"
      by (simp add: names_of_lines_def)
    with False Cons show ?thesis by simp
  next
    case True
    define name where "name = py_strip (before_sep CHR '':'' line)"
    have nl: "names_of_lines (line # rest) = (if name \<noteq> [] then name # names_of_lines rest else names_of_lines rest)"
      using True by (simp add: names_of_lines_def name_def)
    show ?thesis
    proof (cases "name \<noteq> [] \<and> name \<notin> set seen")
      case False
      then have "extract_loop seen (line # rest) = extract_loop seen rest"
        using True Cons.prems by (auto simp: name_def Let_def)
      moreover have "filter (\<lambda>n. n \<notin> set seen) (names_of_lines (line # rest))
          = filter (\<lambda>n. n \<notin> set seen) (names_of_lines rest)"
        using False nl by auto
      ultimately show ?thesis using Cons.IH [OF Cons.prems] by simp
    next
      case new: True
      then have f: "filter (\<lambda>n. n \<notin> set seen) (names_of_lines (line # rest))
          = name # filter (\<lambda>n. n \<notin> set seen) (names_of_lines rest)"
        using nl by simp
      show ?thesis
      proof (cases seen)
        case Nil
        have "extract_loop seen (line # rest) = extract_loop [name] rest"
          using True new Nil by (simp add: name_def Let_def)
        also have "\<dots> = pad_pair (take 2 ([name] @ first_occurrences
            (filter (\<lambda>n. n \<notin> set [name]) (names_of_lines rest))))"
          by (rule Cons.IH) simp
        also have "filter (\<lambda>n. n \<notin> set [name]) (names_of_lines rest)
            = removeAll name (names_of_lines rest)"
          by (simp add: first_occurrences_removeAll_notin)
        finally show ?thesis using f Nil by simp
      next
        case (Cons s ss)
        with Cons.prems have seen: "seen = [s]" by simp
        have "extract_loop seen (line # rest) = (Some s, Some name)"
          using True new seen by (simp add: name_def Let_def)
        moreover have "pad_pair (take 2 (seen @ first_occurrences
            (filter (\<lambda>n. n \<notin> set seen) (names_of_lines (line # rest))))) = (Some s, Some name)"
          unfolding f by (simp add: seen pad_pair_def)
        ultimately show ?thesis by simp
      qed
    qed
  qed
qed

lemmas speakers_eval = extract_speakers_def splitlines_def is_linebreak_def before_sep_def
  py_strip_def is_space_def Let_def

text \<open>
  Claim C5. \<^verbatim>\<open>extract_speakers\<close> scans the lines top to bottom, takes the trimmed text
  before the first colon of each line that has one, keeps the non-empty names not seen
  before and returns the first two distinct names in order of first appearance, padded
  with \<open>None\<close> when fewer than two are found: one name gives (name, None), no name gives
  (None, None).
\<close>

theorem extract_speakers_first_two:
  "extract_speakers txt = pad_pair (take 2 (first_occurrences (colon_names txt)))
   \<and> extract_speakers ''OnlyOne: hi'' = (Some ''OnlyOne'', None)
   \<and> extract_speakers ''no colons here'' = (None, None)"
proof (intro conjI)
  have "extract_loop [] (splitlines txt)
      = pad_pair (take 2 ([] @ first_occurrences
          (filter (\<lambda>n. n \<notin> set []) (names_of_lines (splitlines txt)))))"
    by (rule extract_loop_spec) simp
  then show "extract_speakers txt = pad_pair (take 2 (first_occurrences (colon_names txt)))"
    by (simp add: extract_speakers_def colon_names_def names_of_lines_def)
  show "extract_speakers ''OnlyOne: hi'' = (Some ''OnlyOne'', None)"
    by (simp add: speakers_eval)
  show "extract_speakers ''no colons here'' = (None, None)"
    by (simp add: speakers_eval)
qed

section \<open>The voice assigner\<close>

lemma startswith_has_colon:
  assumes "startswith (lower l) (lower s @ '':'')"
  shows "CHR '':'' \<in> set l"
proof -
  from assms obtain rest where "lower l = (lower s @ '':'') @ rest"
    by (auto simp: startswith_def prefix_def)
  then have "CHR '':'' \<in> set (lower l)" by simp
  then obtain c where "c \<in> set l" "lower_char c = CHR '':''"
    by (auto simp: lower_def)
  then show ?thesis by (simp add: lower_char_colon)
qed

lemma py_index_found:
  "x \<in> set ys \<Longrightarrow> py_index x ys < length ys \<and> ys ! py_index x ys = x"
  by (induction ys) (auto simp: py_index_def)

lemma py_index_map:
  assumes "x \<in> set (map f xs)"
  shows "py_index x (map f xs) < length xs \<and> f (xs ! py_index x (map f xs)) = x"
proof -
  from py_index_found [OF assms]
  have i: "py_index x (map f xs) < length xs" and e: "map f xs ! py_index x (map f xs) = x"
    by simp_all
  from i have "map f xs ! py_index x (map f xs) = f (xs ! py_index x (map f xs))"
    by (rule nth_map)
  with i e show ?thesis by simp
qed

lemma assign_voice_cases:
  assumes "startswith (lower l) (lower s @ '':'')"
  shows "(assign_voice names sv s l = Inr sv \<and> (\<forall>v\<in>set names. \<not> named_voice s v l))
       \<or> (\<exists>v\<in>set names. named_voice s v l \<and> assign_voice names sv s l = Inr (sv(s \<mapsto> v)))"
proof -
  from assms have "CHR '':'' \<in> set l" by (rule startswith_has_colon)
  then obtain r where r: "after_sep CHR '':'' l = Some r" by (simp add: after_sep_def)
  show ?thesis
  proof (cases "lower (py_strip r) \<in> set (map lower names)")
    case False
    then have "\<forall>v\<in>set names. \<not> named_voice s v l"
      using r by (auto simp: named_voice_def)
    moreover have "assign_voice names sv s l = Inr sv"
      using r False by (simp add: assign_voice_def Let_def)
    ultimately show ?thesis by blast
  next
    case True
    define v where "v = names ! py_index (lower (py_strip r)) (map lower names)"
    from py_index_map [OF True] have "v \<in> set names" "lower v = lower (py_strip r)"
      by (simp_all add: v_def)
    then have "named_voice s v l" using r assms by (simp add: named_voice_def)
    moreover have "assign_voice names sv s l = Inr (sv(s \<mapsto> v))"
      using r True by (simp add: assign_voice_def Let_def v_def)
    ultimately show ?thesis using \<open>v \<in> set names\<close> by blast
  qed
qed

lemma parse_suggestions_unresolved:
  assumes "\<forall>l\<in>set ls. \<forall>v\<in>set names. \<not> named_voice s1 v l \<and> \<not> named_voice s2 v l"
  shows "parse_suggestions names s1 s2 sv ls = Inr sv"
  using assms
proof (induction ls)
  case Nil
  then show ?case by simp
next
  case (Cons l ls)
  then have rest: "parse_suggestions names s1 s2 sv ls = Inr sv" by simp
  from Cons.prems have none: "\<forall>v\<in>set names. \<not> named_voice s1 v l"
    "\<forall>v\<in>set names. \<not> named_voice s2 v l" by simp_all
  show ?case
  proof (cases "startswith (lower l) (lower s1 @ '':'')")
    case True
    with assign_voice_cases [OF True, of names sv] none(1)
    have "assign_voice names sv s1 l = Inr sv" by blast
    with True rest show ?thesis by simp
  next
    case False
    show ?thesis
    proof (cases "startswith (lower l) (lower s2 @ '':'')")
      case True
      with assign_voice_cases [OF True, of names sv] none(2)
      have "assign_voice names sv s2 l = Inr sv" by blast
      with True False rest show ?thesis by simp
    next
      case no: False
      with False rest show ?thesis by simp
    qed
  qed
qed

lemma find_filter_hd:
  "find P xs = Some x \<Longrightarrow> \<exists>rest. filter P xs = x # rest"
  by (induction xs) (auto split: if_splits)

lemma find_by_name:
  "distinct (map f xs) \<Longrightarrow> x \<in> set xs \<Longrightarrow> find (\<lambda>v. f v = f x) xs = Some x"
  by (induction xs) (auto simp: image_iff)

lemma find_SomeD: "find P xs = Some x \<Longrightarrow> x \<in> set xs \<and> P x"
  by (induction xs) (auto split: if_splits)

lemma fallback_from_empty:
  assumes "s1 \<noteq> s2" and "distinct (map voice_name cat)"
    and "find (\<lambda>v. voice_gender v = ''Male'') cat = Some mv"
    and "find (\<lambda>v. voice_gender v = ''Female'') cat = Some fv"
  shows "fallback_voices cat s1 s2 Map.empty = Inr [s1 \<mapsto> voice_name mv, s2 \<mapsto> voice_name fv]"
    and "voice_name mv \<noteq> voice_name fv"
proof -
  from find_filter_hd [OF assms(3)] obtain ms where
    ms: "filter (\<lambda>v. voice_gender v = ''Male'') cat = mv # ms" by blast
  from find_filter_hd [OF assms(4)] obtain fs where
    fs: "filter (\<lambda>v. voice_gender v = ''Female'') cat = fv # fs" by blast
  from find_SomeD [OF assms(3)] have mv: "mv \<in> set cat" "voice_gender mv = ''Male''" by simp_all
  from find_SomeD [OF assms(4)] have fv: "fv \<in> set cat" "voice_gender fv = ''Female''" by simp_all
  have look: "find (\<lambda>v. voice_name v = voice_name mv) cat = Some mv"
    using assms(2) mv(1) by (rule find_by_name)
  show "fallback_voices cat s1 s2 Map.empty = Inr [s1 \<mapsto> voice_name mv, s2 \<mapsto> voice_name fv]"
    using assms(1) ms fs look mv(2)
    by (simp add: fallback_voices_def Let_def)
  show "voice_name mv \<noteq> voice_name fv"
  proof
    assume "voice_name mv = voice_name fv"
    with assms(2) mv(1) fv(1) have "mv = fv"
      by (meson distinct_map inj_onD)
    with mv(2) fv(2) show False by simp
  qed
qed

lemmas voices_eval = select_voices_for_speakers_def select_voices_from_def get_available_voices_def
  voice_name_def voice_gender_def fallback_voices_def assign_voice_def py_index_def after_sep_def
  lower_def lower_char_def startswith_def py_strip_def is_space_def Let_def char_of_def
  bit_Suc_0_iff

text \<open>
  Claim C7, amended. For two different speaker names and a suggestion reply that is empty
  or has no line naming a catalog voice for either speaker, the mapping holds exactly the
  two names, speaker 1 with the first Male entry and speaker 2 with the first Female entry,
  which differ, whenever the catalog's entries are unique by name and it has an entry of
  each gender; the mapping is the same for every such reply, so it depends on the speaker
  names and the catalog only.
\<close>

theorem fallback_voices_distinct:
  assumes "s1 \<noteq> s2" and "distinct (map voice_name cat)"
    and "find (\<lambda>v. voice_gender v = ''Male'') cat = Some mv"
    and "find (\<lambda>v. voice_gender v = ''Female'') cat = Some fv"
    and "\<forall>l\<in>set (reply_lines reply). \<forall>v\<in>set cat.
           \<not> named_voice s1 (voice_name v) l \<and> \<not> named_voice s2 (voice_name v) l"
    and "\<forall>l\<in>set (reply_lines reply'). \<forall>v\<in>set cat.
           \<not> named_voice s1 (voice_name v) l \<and> \<not> named_voice s2 (voice_name v) l"
  shows "select_voices_from cat reply s1 s2 = Inr [s1 \<mapsto> voice_name mv, s2 \<mapsto> voice_name fv]
       \<and> voice_name mv \<noteq> voice_name fv
       \<and> select_voices_from cat reply' s1 s2 = select_voices_from cat reply s1 s2"
proof -
  have parse: "parse_suggestions (map voice_name cat) s1 s2 Map.empty (reply_lines r) = Inr Map.empty"
    if "\<forall>l\<in>set (reply_lines r). \<forall>v\<in>set cat.
           \<not> named_voice s1 (voice_name v) l \<and> \<not> named_voice s2 (voice_name v) l" for r
    using that by (intro parse_suggestions_unresolved) simp
  have sel: "select_voices_from cat r s1 s2 = Inr [s1 \<mapsto> voice_name mv, s2 \<mapsto> voice_name fv]"
    if "\<forall>l\<in>set (reply_lines r). \<forall>v\<in>set cat.
           \<not> named_voice s1 (voice_name v) l \<and> \<not> named_voice s2 (voice_name v) l" for r
    using parse [OF that] fallback_from_empty(1) [OF assms(1-4)]
    by (simp add: select_voices_from_def reply_lines_def)
  from sel [OF assms(5)] sel [OF assms(6)] fallback_from_empty(2) [OF assms(1-4)]
  show ?thesis by simp
qed

theorem fallback_voices_distinct_witness:
  "find (\<lambda>v. voice_gender v = ''Male'') get_available_voices = Some (''Puck'', ''Upbeat'', ''Male'')
   \<and> find (\<lambda>v. voice_gender v = ''Female'') get_available_voices = Some (''Zephyr'', ''Bright'', ''Female'')
   \<and> reply_lines [] = [[]]
   \<and> reply_lines (''No idea at all.'' @ [CHR 0x0A] @ ''Alice: Nobody'') = [''No idea at all.'', ''Alice: Nobody'']
   \<and> select_voices_from get_available_voices [] ''Alice'' ''Bob''
       = Inr [''Alice'' \<mapsto> ''Puck'', ''Bob'' \<mapsto> ''Zephyr'']
   \<and> select_voices_from get_available_voices (''No idea at all.'' @ [CHR 0x0A] @ ''Alice: Nobody'')
         ''Alice'' ''Bob''
       = select_voices_from get_available_voices [] ''Alice'' ''Bob''"
proof -
  let ?r = "''No idea at all.'' @ [CHR 0x0A] @ ''Alice: Nobody''"
  have m: "find (\<lambda>v. voice_gender v = ''Male'') get_available_voices = Some (''Puck'', ''Upbeat'', ''Male'')"
    and f: "find (\<lambda>v. voice_gender v = ''Female'') get_available_voices = Some (''Zephyr'', ''Bright'', ''Female'')"
    by (simp_all add: get_available_voices_def voice_gender_def)
  have d: "distinct (map voice_name get_available_voices)"
    by (simp add: get_available_voices_def voice_name_def)
  have l1: "reply_lines [] = [[]]"
    and l2: "reply_lines ?r = [''No idea at all.'', ''Alice: Nobody'']"
    by (simp_all add: reply_lines_def py_strip_def is_space_def)
  have n: "(''Alice'' :: string) \<noteq> ''Bob''" by simp
  have h1: "\<forall>l\<in>set (reply_lines []). \<forall>v\<in>set get_available_voices.
           \<not> named_voice ''Alice'' (voice_name v) l \<and> \<not> named_voice ''Bob'' (voice_name v) l"
    unfolding l1 by (simp add: named_voice_def startswith_def lower_def)
  have h2: "\<forall>l\<in>set (reply_lines ?r). \<forall>v\<in>set get_available_voices.
           \<not> named_voice ''Alice'' (voice_name v) l \<and> \<not> named_voice ''Bob'' (voice_name v) l"
    unfolding l2 by (simp add: named_voice_def voices_eval)
  from fallback_voices_distinct [OF n d m f h1 h2] m f l1 l2
  show ?thesis by (simp add: voice_name_def)
qed

text \<open>
  As first stated, without asking for two different names, the claim fails: a script whose
  only speaker is called \<^verbatim>\<open>Speaker 2\<close> makes \<^verbatim>\<open>generate\<close> pass that name twice, and the
  mapping then holds one voice.
\<close>

theorem same_speaker_name_counterexample:
  "extract_speakers ''Speaker 2: hello'' = (Some ''Speaker 2'', None)
   \<and> or_default ''Speaker 2'' None = ''Speaker 2''
   \<and> select_voices_for_speakers [] ''Speaker 2'' ''Speaker 2'' = Inr [''Speaker 2'' \<mapsto> ''Puck'']"
  by (simp add: voices_eval or_default_def extract_speakers_def splitlines_def is_linebreak_def
      before_sep_def)

text \<open>
  Claim C1 says that two different speakers always get two different voices, also when the
  reply names the same catalog voice for both. Here the reply names Puck for Alice and for
  Bob, and the returned mapping gives Puck to both.
\<close>

theorem suggested_same_voice:
  "select_voices_for_speakers (''Alice: Puck'' @ [CHR 0x0A] @ ''Bob: Puck'') ''Alice'' ''Bob''
     = Inr [''Alice'' \<mapsto> ''Puck'', ''Bob'' \<mapsto> ''Puck'']"
  by (simp add: voices_eval)


lemma named_voice_resolves:
  assumes "named_voice s v l" and "v \<in> set names"
  shows "\<exists>w\<in>set names. named_voice s w l \<and> assign_voice names sv s l = Inr (sv(s \<mapsto> w))"
proof -
  from assms(1) have p: "startswith (lower l) (lower s @ '':'')"
    by (simp add: named_voice_def)
  from assign_voice_cases [OF p, of names sv] assms show ?thesis by blast
qed






section \<open>The stream assembler and the entry point\<close>




















text \<open>
  Claim C2 says that a missing script file ends the process with a non-zero exit code and
  without a service call. With the credential set and a script path that names no file, the
  process prints the error and calls no service, and it ends with exit code 0.
\<close>

theorem missing_script_exits_zero:
  assumes "api_key w = Some k" and "k \<noteq> []" and "script_path \<noteq> []"
    and "text_files w script_path = None"
  shows "main w script_path output
     = \<lparr>exit_code = 0, uncaught = None,
        final = \<lparr>written = Map.empty,
                 trace = [Print Welcome, Print (File_not_found script_path)]\<rparr>\<rparr>"
  using assms by (simp add: main_def generate_def emit_def Let_def)

theorem missing_script_exits_zero_witness:
  "api_key example_world = Some ''secret''
   \<and> text_files example_world ''missing.txt'' = None
   \<and> main example_world ''missing.txt'' None
     = \<lparr>exit_code = 0, uncaught = None,
        final = \<lparr>written = Map.empty,
                 trace = [Print Welcome, Print (File_not_found ''missing.txt'')]\<rparr>\<rparr>"
proof -
  have a: "api_key example_world = Some ''secret''"
    and f: "text_files example_world ''missing.txt'' = None"
    by (simp_all add: example_world_def)
  from missing_script_exits_zero [OF a _ _ f, of None] a f show ?thesis by simp
qed

end
